theory Spec2Isabelle
  imports Main "HOL-Library.AList" "HOL-Library.Word"
begin

section \<open>The PLY converter of convert.py\<close>

text \<open>
  The converter reads the vertex element of a binary PLY file and writes it again under
  the schema of a reference file. The development follows convert.py function by
  function. A Python \<open>bytes\<close> object and a decoded ASCII \<open>str\<close> are both lists of
  \<^typ>\<open>char\<close> (an Isabelle character is one byte); decoding is the check that every byte
  is below 128. Exceptions are values of the type \<open>error\<close>, one constructor for each
  \<open>raise\<close> of the source and for each exception of the library calls it makes.
\<close>

subsection \<open>Errors\<close>

datatype error =
    HeaderEOF                      \<comment> \<open>EOFError: Unexpected EOF while reading PLY header\<close>
  | UnicodeDecodeError             \<comment> \<open>\<open>bytes.decode("ascii", errors="strict")\<close>\<close>
  | NotAPly                        \<comment> \<open>ValueError: Not a PLY file\<close>
  | InvalidFormatLine              \<comment> \<open>ValueError: Invalid format line in header\<close>
  | InvalidElementLine             \<comment> \<open>ValueError: Invalid element line\<close>
  | InvalidIntLiteral              \<comment> \<open>ValueError of \<open>int(parts[2])\<close>: not a literal, or too many digits\<close>
  | IntToStrLimit                  \<comment> \<open>ValueError of printing an integer of too many digits\<close>
  | ListPropertyUnsupported        \<comment> \<open>ValueError: List properties are not supported\<close>
  | InvalidPropertyLine            \<comment> \<open>ValueError: Invalid property line\<close>
  | NoVertexElement                \<comment> \<open>ValueError: No vertex element found in header\<close>
  | UnsupportedScalarType string   \<comment> \<open>ValueError: Unsupported PLY scalar type\<close>
  | UnsupportedFormat string       \<comment> \<open>ValueError: Only binary PLY is supported\<close>
  | BodyEOF nat int                \<comment> \<open>EOFError: Unexpected EOF while reading vertex data at i/n\<close>
  | NegativeDimensions             \<comment> \<open>ValueError of \<open>np.empty\<close> and \<open>np.zeros\<close> on a negative length\<close>
  | ArrayTooBig                    \<comment> \<open>ValueError of \<open>np.empty\<close> and \<open>np.zeros\<close> on a length beyond the index type\<close>
  | MemoryError                    \<comment> \<open>MemoryError of \<open>np.empty\<close> and \<open>np.zeros\<close>\<close>
  | MissingColumn string           \<comment> \<open>KeyError: Missing column for output\<close>
  | RowCountMismatch string        \<comment> \<open>ValueError: Column has k rows, expected n\<close>
  | StructError                    \<comment> \<open>\<open>struct.error\<close> of \<open>Struct.pack\<close>\<close>
  | OverflowError                  \<comment> \<open>OverflowError of \<open>float(v)\<close> and of \<open>Struct.pack\<close> on a float too large\<close>
  | UnicodeEncodeError             \<comment> \<open>\<open>str.encode("ascii")\<close>\<close>
  | KeyError string                \<comment> \<open>a dictionary lookup on a missing key\<close>
  | IndexError                     \<comment> \<open>an array index out of range\<close>
  | FileNotFoundError              \<comment> \<open>\<open>Path.open("rb")\<close> on a path that does not exist\<close>

subsection \<open>Bytes and text\<close>

type_synonym bytes = "char list"

definition LF :: char where
  "LF = CHR 0x0A"

definition CR :: char where
  "CR = CHR 0x0D"

text \<open>
  \<open>str.isspace\<close> on an ASCII character: tab, line feed, vertical tab, form feed,
  carriage return, the four separators 0x1C to 0x1F, and space. \<open>str.strip()\<close> and
  \<open>str.split()\<close> without arguments use this set.
\<close>

definition is_space :: "char \<Rightarrow> bool" where
  "is_space c = (let n = (of_char c :: nat) in (9 \<le> n \<and> n \<le> 13) \<or> (28 \<le> n \<and> n \<le> 32))"

definition is_ascii :: "char \<Rightarrow> bool" where
  "is_ascii c = ((of_char c :: nat) < 128)"

definition decode_ascii :: "bytes \<Rightarrow> error + string" where
  "decode_ascii b = (if list_all is_ascii b then Inr b else Inl UnicodeDecodeError)"

definition encode_ascii :: "string \<Rightarrow> error + bytes" where
  "encode_ascii s = (if list_all is_ascii s then Inr s else Inl UnicodeEncodeError)"

definition strip :: "string \<Rightarrow> string" where
  "strip s = rev (dropWhile is_space (rev (dropWhile is_space s)))"

definition rstrip_crlf :: "string \<Rightarrow> string" where
  "rstrip_crlf s = rev (dropWhile (\<lambda>c. c = CR \<or> c = LF) (rev s))"

text \<open>\<open>str.split()\<close>: the maximal runs of non-space characters, in order.\<close>

fun split_acc :: "string \<Rightarrow> string \<Rightarrow> string list" where
  "split_acc cur [] = (if cur = [] then [] else [cur])"
| "split_acc cur (c # cs) =
     (if is_space c then (if cur = [] then split_acc [] cs else cur # split_acc [] cs)
      else split_acc (cur @ [c]) cs)"

definition split :: "string \<Rightarrow> string list" where
  "split s = split_acc [] s"

text \<open>
  \<open>int(s)\<close> in base 10: surrounding white space is dropped, then an optional sign, then
  decimal digits, single underscores allowed between digits. The interpreter refuses,
  with the same ValueError, a literal of more than \<open>int_max_str_digits\<close> digits (leading
  zeros count, underscores and the sign do not), and it refuses to print an integer of
  more digits than that. The limit is the interpreter's default.
\<close>

definition int_max_str_digits :: nat where
  "int_max_str_digits = 4300"

definition is_digit :: "char \<Rightarrow> bool" where
  "is_digit c = (let n = (of_char c :: nat) in 48 \<le> n \<and> n \<le> 57)"

definition digit_val :: "char \<Rightarrow> nat" where
  "digit_val c = of_char c - 48"

fun parse_digits :: "nat \<Rightarrow> string \<Rightarrow> nat option" where
  "parse_digits acc [] = Some acc"
| "parse_digits acc [c] = (if is_digit c then Some (acc * 10 + digit_val c) else None)"
| "parse_digits acc (c # d # ds) =
     (if is_digit c then parse_digits (acc * 10 + digit_val c) (d # ds)
      else if c = CHR ''_'' \<and> is_digit d then parse_digits (acc * 10 + digit_val d) ds
      else None)"

definition py_int :: "string \<Rightarrow> error + int" where
  "py_int s =
     (let t = strip s;
          neg = (t \<noteq> [] \<and> hd t = CHR ''-'');
          r = (if t \<noteq> [] \<and> (hd t = CHR ''-'' \<or> hd t = CHR ''+'') then tl t else t)
      in case r of
           [] \<Rightarrow> Inl InvalidIntLiteral
         | d # ds \<Rightarrow>
             if is_digit d then
               (case parse_digits (digit_val d) ds of
                  None \<Rightarrow> Inl InvalidIntLiteral
                | Some n \<Rightarrow>
                    if int_max_str_digits < length (filter is_digit r)
                    then Inl InvalidIntLiteral
                    else Inr (if neg then - int n else int n))
             else Inl InvalidIntLiteral)"

text \<open>
  \<open>str(n)\<close> for an integer, as the f-string \<open>f"element vertex {vertex_count}"\<close> prints
  it: \<open>str_nat\<close> gives the digits, \<open>str_int\<close> adds the sign, \<open>format_int\<close> is the
  conversion with its limit.
\<close>

fun str_nat :: "nat \<Rightarrow> string" where
  "str_nat n = (if n < 10 then [char_of (48 + n)] else str_nat (n div 10) @ [char_of (48 + n mod 10)])"

declare str_nat.simps [simp del]

definition str_int :: "int \<Rightarrow> string" where
  "str_int i = (if i < 0 then CHR ''-'' # str_nat (nat (- i)) else str_nat (nat i))"

definition format_int :: "int \<Rightarrow> error + string" where
  "format_int i =
     (if int_max_str_digits < length (str_nat (nat \<bar>i\<bar>)) then Inl IntToStrLimit
      else Inr (str_int i))"

text \<open>
  A file opened for reading is the list of lines that successive \<open>f.readline()\<close> calls
  return: each line ends with its line feed, except possibly the last. \<open>_readline_ascii\<close>
  raises EOFError when no line is left.
\<close>

fun readlines :: "bytes \<Rightarrow> bytes list" where
  "readlines [] = []"
| "readlines (c # cs) =
     (if c = LF then [c] # readlines cs
      else (case readlines cs of [] \<Rightarrow> [[c]] | l # ls \<Rightarrow> (c # l) # ls))"

subsection \<open>The header\<close>

record PlyHeader =
  format :: string
  version :: string
  vertex_count :: int
  vertex_properties :: "(string \<times> string) list"
  header_lines :: "string list"
  data_start_offset :: nat

text \<open>
  The \<open>while True\<close> loop of \<open>parse_ply_header\<close>, over the lines still unread. Its state
  is \<open>vertex_count\<close> (\<open>None\<close> until a vertex element is seen), \<open>vertex_properties\<close>,
  \<open>in_vertex\<close>, \<open>header_lines\<close> and the file position \<open>f.tell()\<close>. It returns the state
  at \<open>end_header\<close>, the position being \<open>data_start\<close>.
\<close>

fun header_loop ::
  "int option \<Rightarrow> (string \<times> string) list \<Rightarrow> bool \<Rightarrow> string list \<Rightarrow> nat \<Rightarrow> bytes list
   \<Rightarrow> error + (int option \<times> (string \<times> string) list \<times> string list \<times> nat)" where
  "header_loop vc props in_vertex hl pos [] = Inl HeaderEOF"
| "header_loop vc props in_vertex hl pos (bline # rest) =
     (case decode_ascii bline of
        Inl e \<Rightarrow> Inl e
      | Inr s \<Rightarrow>
          (let line = rstrip_crlf s;
               hl' = hl @ [line];
               pos' = pos + length bline;
               stripped = strip line;
               parts = split stripped
           in if stripped = ''end_header'' then Inr (vc, props, hl', pos')
              else if parts = [] then header_loop vc props in_vertex hl' pos' rest
              else if hd parts = ''element'' then
                (if length parts \<noteq> 3 then Inl InvalidElementLine
                 else (case py_int (parts ! 2) of
                         Inl e \<Rightarrow> Inl e
                       | Inr elem_count \<Rightarrow>
                           (if parts ! 1 = ''vertex''
                            then header_loop (Some elem_count) props True hl' pos' rest
                            else header_loop vc props False hl' pos' rest)))
              else if hd parts = ''property'' then
                (if in_vertex then
                   (if length parts = 3
                    then header_loop vc (props @ [(parts ! 1, parts ! 2)]) in_vertex hl' pos' rest
                    else if length parts \<ge> 5 \<and> parts ! 1 = ''list''
                    then Inl ListPropertyUnsupported
                    else Inl InvalidPropertyLine)
                 else header_loop vc props in_vertex hl' pos' rest)
              else header_loop vc props in_vertex hl' pos' rest))"

definition parse_ply_header :: "bytes \<Rightarrow> error + PlyHeader" where
  "parse_ply_header file =
     (case readlines file of
        [] \<Rightarrow> Inl HeaderEOF
      | first # ls1 \<Rightarrow>
          (case decode_ascii first of
             Inl e \<Rightarrow> Inl e
           | Inr s1 \<Rightarrow>
               if strip (rstrip_crlf s1) \<noteq> ''ply'' then Inl NotAPly
               else
                 (case ls1 of
                    [] \<Rightarrow> Inl HeaderEOF
                  | fmt_line # ls2 \<Rightarrow>
                      (case decode_ascii fmt_line of
                         Inl e \<Rightarrow> Inl e
                       | Inr s2 \<Rightarrow>
                           (let fmt_parts = split (strip s2)
                            in if length fmt_parts \<noteq> 3 \<or> fmt_parts ! 0 \<noteq> ''format''
                               then Inl InvalidFormatLine
                               else
                                 (case header_loop None [] False [rstrip_crlf s1, rstrip_crlf s2]
                                         (length first + length fmt_line) ls2 of
                                    Inl e \<Rightarrow> Inl e
                                  | Inr (vc, props, hl, data_start) \<Rightarrow>
                                      (case vc of
                                         None \<Rightarrow> Inl NoVertexElement
                                       | Some n \<Rightarrow>
                                           Inr \<lparr> format = fmt_parts ! 1,
                                                 version = fmt_parts ! 2,
                                                 vertex_count = n,
                                                 vertex_properties = props,
                                                 header_lines = hl,
                                                 data_start_offset = data_start \<rparr>)))))))"

subsection \<open>Scalar types and their struct codes\<close>

text \<open>
  The format characters of Python's \<open>struct\<close> module that the table uses:
  \<open>Cb\<close> is \<open>"b"\<close>, \<open>CB\<close> is \<open>"B"\<close>, \<open>Ch\<close> is \<open>"h"\<close>, \<open>CH\<close> is \<open>"H"\<close>, \<open>Ci\<close> is \<open>"i"\<close>,
  \<open>CI\<close> is \<open>"I"\<close>, \<open>Cf\<close> is \<open>"f"\<close> and \<open>Cd\<close> is \<open>"d"\<close>.
\<close>

datatype scode = Cb | CB | Ch | CH | Ci | CI | Cf | Cd

definition PLY_TYPE_TO_STRUCT :: "(string \<times> scode) list" where
  "PLY_TYPE_TO_STRUCT =
     [(''char'', Cb), (''int8'', Cb),
      (''uchar'', CB), (''uint8'', CB),
      (''short'', Ch), (''int16'', Ch),
      (''ushort'', CH), (''uint16'', CH),
      (''int'', Ci), (''int32'', Ci),
      (''uint'', CI), (''uint32'', CI),
      (''float'', Cf), (''float32'', Cf),
      (''double'', Cd), (''float64'', Cd)]"

text \<open>The byte order prefix of a struct format: \<open>Little\<close> is \<open>"<"\<close>, \<open>Big\<close> is \<open>">"\<close>.\<close>

datatype endian = Little | Big

text \<open>With either prefix the sizes are the standard ones and there is no padding.\<close>

fun code_size :: "scode \<Rightarrow> nat" where
  "code_size Cb = 1"
| "code_size CB = 1"
| "code_size Ch = 2"
| "code_size CH = 2"
| "code_size Ci = 4"
| "code_size CI = 4"
| "code_size Cf = 4"
| "code_size Cd = 8"

record Struct =
  byte_order :: endian
  codes :: "scode list"

definition struct_size :: "Struct \<Rightarrow> nat" where
  "struct_size st = sum_list (map code_size (codes st))"

fun struct_codes :: "(string \<times> string) list \<Rightarrow> error + scode list" where
  "struct_codes [] = Inr []"
| "struct_codes ((t, n) # ps) =
     (case map_of PLY_TYPE_TO_STRUCT t of
        None \<Rightarrow> Inl (UnsupportedScalarType t)
      | Some c \<Rightarrow> (case struct_codes ps of Inl e \<Rightarrow> Inl e | Inr cs \<Rightarrow> Inr (c # cs)))"

definition struct_for_vertex :: "(string \<times> string) list \<Rightarrow> endian \<Rightarrow> error + Struct" where
  "struct_for_vertex props e =
     (case struct_codes props of
        Inl err \<Rightarrow> Inl err
      | Inr cs \<Rightarrow> Inr \<lparr> byte_order = e, codes = cs \<rparr>)"

definition endian_for_format :: "string \<Rightarrow> error + endian" where
  "endian_for_format fmt =
     (if fmt = ''binary_little_endian'' then Inr Little
      else if fmt = ''binary_big_endian'' then Inr Big
      else Inl (UnsupportedFormat fmt))"

subsection \<open>Integers in bytes\<close>

fun le_nat :: "bytes \<Rightarrow> nat" where
  "le_nat [] = 0"
| "le_nat (b # bs) = of_char b + 256 * le_nat bs"

fun nat_le :: "nat \<Rightarrow> nat \<Rightarrow> bytes" where
  "nat_le 0 n = []"
| "nat_le (Suc k) n = char_of (n mod 256) # nat_le k (n div 256)"

definition bytes_nat :: "endian \<Rightarrow> bytes \<Rightarrow> nat" where
  "bytes_nat e bs = (case e of Little \<Rightarrow> le_nat bs | Big \<Rightarrow> le_nat (rev bs))"

definition nat_bytes :: "endian \<Rightarrow> nat \<Rightarrow> nat \<Rightarrow> bytes" where
  "nat_bytes e k n = (case e of Little \<Rightarrow> nat_le k n | Big \<Rightarrow> rev (nat_le k n))"

text \<open>Two's complement on \<open>k\<close> bytes.\<close>

definition to_signed :: "nat \<Rightarrow> nat \<Rightarrow> int" where
  "to_signed k n = (if n < 2 ^ (8 * k - 1) then int n else int n - 2 ^ (8 * k))"

definition of_signed :: "nat \<Rightarrow> int \<Rightarrow> nat" where
  "of_signed k i = nat (i mod 2 ^ (8 * k))"

subsection \<open>Floating point\<close>

text \<open>
  A NumPy \<open>float32\<close> is its IEEE 754 binary32 bit pattern, a Python \<open>float\<close> its binary64
  bit pattern. The conversions between the two widths and from integers are the IEEE
  ones the C casts of the interpreter and of NumPy compute: exact when widening, round to
  nearest with ties to even when narrowing, a signalling NaN converted to the quiet NaN
  with the same sign and leading payload bits.
\<close>

type_synonym f32 = "32 word"
type_synonym f64 = "64 word"

fun bitlen :: "nat \<Rightarrow> nat" where
  "bitlen n = (if n = 0 then 0 else Suc (bitlen (n div 2)))"

declare bitlen.simps [simp del]

text \<open>\<open>rne M sh\<close> is \<open>M / 2 ^ sh\<close> rounded to the nearest integer, ties to even.\<close>

definition rne :: "nat \<Rightarrow> nat \<Rightarrow> nat" where
  "rne M sh =
     (let q = M div 2 ^ sh; r = M mod 2 ^ sh
      in if 2 ^ sh < 2 * r \<or> (2 * r = 2 ^ sh \<and> odd q) then q + 1 else q)"

text \<open>
  \<open>round_ieee mb eb M x\<close> is the magnitude part (exponent and mantissa fields, without the
  sign bit) of the value \<open>M * 2 ^ x\<close> rounded to the binary format with \<open>mb\<close> mantissa bits
  and \<open>eb\<close> exponent bits. The leading bit of \<open>M\<close> has exponent \<open>E\<close>; a normal result keeps
  \<open>mb\<close> bits below it, a subnormal one is a multiple of the least subnormal. The hidden bit
  is added on to the exponent field, so a carry out of the mantissa increments the
  exponent; a result at or above the pattern of infinity is infinity.
\<close>

definition round_ieee :: "nat \<Rightarrow> nat \<Rightarrow> nat \<Rightarrow> int \<Rightarrow> nat" where
  "round_ieee mb eb M x =
     (if M = 0 then 0
      else
        (let emin = 2 - (2 :: int) ^ (eb - 1);
             E = int (bitlen M) - 1 + x;
             lsb = (if emin \<le> E then E - int mb else emin - int mb);
             k = (if lsb \<le> x then M * 2 ^ nat (x - lsb) else rne M (nat (lsb - x)));
             base = (if emin \<le> E then nat (E - emin) * 2 ^ mb else 0)
         in min (base + k) ((2 ^ eb - 1) * 2 ^ mb)))"

definition widen_bits :: "nat \<Rightarrow> nat" where
  "widen_bits n =
     (let s = n div 2 ^ 31; e = n div 2 ^ 23 mod 256; m = n mod 2 ^ 23
      in if e = 255
         then s * 2 ^ 63 + 2047 * 2 ^ 52 + (if m = 0 then 0 else (m mod 2 ^ 22 + 2 ^ 22) * 2 ^ 29)
         else s * 2 ^ 63
              + round_ieee 52 11 (if e = 0 then m else 2 ^ 23 + m)
                  (if e = 0 then - 149 else int e - 150))"

definition narrow_bits :: "nat \<Rightarrow> nat" where
  "narrow_bits n =
     (let s = n div 2 ^ 63; e = n div 2 ^ 52 mod 2048; m = n mod 2 ^ 52
      in if e = 2047
         then s * 2 ^ 31 + 255 * 2 ^ 23 + (if m = 0 then 0 else m div 2 ^ 29 mod 2 ^ 22 + 2 ^ 22)
         else s * 2 ^ 31
              + round_ieee 23 8 (if e = 0 then m else 2 ^ 52 + m)
                  (if e = 0 then - 1074 else int e - 1075))"

definition f32_to_f64 :: "f32 \<Rightarrow> f64" where
  "f32_to_f64 c = word_of_nat (widen_bits (unat c))"

definition f64_to_f32 :: "f64 \<Rightarrow> f32" where
  "f64_to_f32 x = word_of_nat (narrow_bits (unat x))"

definition f32_is_nan :: "f32 \<Rightarrow> bool" where
  "f32_is_nan c = (unat c div 2 ^ 23 mod 256 = 255 \<and> unat c mod 2 ^ 23 \<noteq> 0)"

definition f32_is_snan :: "f32 \<Rightarrow> bool" where
  "f32_is_snan c = (f32_is_nan c \<and> unat c div 2 ^ 22 mod 2 = 0)"

definition f32_quiet :: "f32 \<Rightarrow> f32" where
  "f32_quiet c = (if f32_is_snan c then c + 2 ^ 22 else c)"

definition f64_is_inf :: "f64 \<Rightarrow> bool" where
  "f64_is_inf x = (unat x mod 2 ^ 63 = 2047 * 2 ^ 52)"

definition f32_is_inf :: "f32 \<Rightarrow> bool" where
  "f32_is_inf c = (unat c mod 2 ^ 31 = 255 * 2 ^ 23)"

subsection \<open>Python values and the struct codec\<close>

text \<open>
  The objects that are packed and unpacked: a Python \<open>int\<close>, a Python \<open>float\<close>, and a
  NumPy \<open>float32\<close> scalar (an element of a column).
\<close>

datatype pyval = PyInt int | PyFloat f64 | NpFloat32 f32

text \<open>
  \<open>float(v)\<close>. An integer whose nearest double is not finite raises OverflowError.
\<close>

definition int_to_f64 :: "int \<Rightarrow> f64" where
  "int_to_f64 i = word_of_nat ((if i < 0 then 2 ^ 63 else 0) + round_ieee 52 11 (nat \<bar>i\<bar>) 0)"

definition py_float :: "pyval \<Rightarrow> error + f64" where
  "py_float v =
     (case v of
        PyInt i \<Rightarrow>
          if round_ieee 52 11 (nat \<bar>i\<bar>) 0 = 2047 * 2 ^ 52 then Inl OverflowError
          else Inr (int_to_f64 i)
      | PyFloat x \<Rightarrow> Inr x
      | NpFloat32 c \<Rightarrow> Inr (f32_to_f64 c))"

definition unpack_code :: "endian \<Rightarrow> scode \<Rightarrow> bytes \<Rightarrow> pyval" where
  "unpack_code e c bs =
     (let n = bytes_nat e bs
      in case c of
           Cb \<Rightarrow> PyInt (to_signed 1 n)
         | CB \<Rightarrow> PyInt (int n)
         | Ch \<Rightarrow> PyInt (to_signed 2 n)
         | CH \<Rightarrow> PyInt (int n)
         | Ci \<Rightarrow> PyInt (to_signed 4 n)
         | CI \<Rightarrow> PyInt (int n)
         | Cf \<Rightarrow> PyFloat (f32_to_f64 (word_of_nat n))
         | Cd \<Rightarrow> PyFloat (word_of_nat n))"

text \<open>
  Packing an integer code needs an object with \<open>__index__\<close>, which only \<open>int\<close> has here,
  within the range of the code. Packing \<open>"f"\<close> or \<open>"d"\<close> converts the object to a
  double first, and raises struct.error when that fails. Packing \<open>"f"\<close> then narrows
  the double and raises OverflowError when a finite double becomes infinite; the struct
  module turns an OverflowError on an \<open>int\<close> argument into struct.error.
\<close>

definition pack_int :: "endian \<Rightarrow> nat \<Rightarrow> bool \<Rightarrow> pyval \<Rightarrow> error + bytes" where
  "pack_int e k is_signed v =
     (case v of
        PyInt i \<Rightarrow>
          (if is_signed then
             (if - (2 ^ (8 * k - 1)) \<le> i \<and> i < 2 ^ (8 * k - 1)
              then Inr (nat_bytes e k (of_signed k i)) else Inl StructError)
           else
             (if 0 \<le> i \<and> i < 2 ^ (8 * k)
              then Inr (nat_bytes e k (nat i)) else Inl StructError))
      | PyFloat x \<Rightarrow> Inl StructError
      | NpFloat32 c \<Rightarrow> Inl StructError)"

definition pack_code :: "endian \<Rightarrow> scode \<Rightarrow> pyval \<Rightarrow> error + bytes" where
  "pack_code e c v =
     (case c of
        Cb \<Rightarrow> pack_int e 1 True v
      | CB \<Rightarrow> pack_int e 1 False v
      | Ch \<Rightarrow> pack_int e 2 True v
      | CH \<Rightarrow> pack_int e 2 False v
      | Ci \<Rightarrow> pack_int e 4 True v
      | CI \<Rightarrow> pack_int e 4 False v
      | Cf \<Rightarrow>
          (case py_float v of
             Inl err \<Rightarrow> Inl StructError
           | Inr x \<Rightarrow>
               (let y = f64_to_f32 x
                in if f32_is_inf y \<and> \<not> f64_is_inf x
                   then (case v of PyInt i \<Rightarrow> Inl StructError | _ \<Rightarrow> Inl OverflowError)
                   else Inr (nat_bytes e 4 (unat y))))
      | Cd \<Rightarrow>
          (case py_float v of
             Inl err \<Rightarrow> Inl StructError
           | Inr x \<Rightarrow> Inr (nat_bytes e 8 (unat x))))"

text \<open>\<open>Struct.unpack\<close> on a chunk of \<open>struct_size\<close> bytes: one value per code, in order.\<close>

fun unpack_codes :: "endian \<Rightarrow> scode list \<Rightarrow> bytes \<Rightarrow> pyval list" where
  "unpack_codes e [] bs = []"
| "unpack_codes e (c # cs) bs =
     unpack_code e c (take (code_size c) bs) # unpack_codes e cs (drop (code_size c) bs)"

definition struct_unpack :: "Struct \<Rightarrow> bytes \<Rightarrow> pyval list" where
  "struct_unpack st chunk = unpack_codes (byte_order st) (codes st) chunk"

text \<open>
  \<open>Struct.pack(*row)\<close>: the values are converted left to right, and the first one that
  cannot be converted raises. A row with the wrong number of values raises struct.error.
\<close>

fun pack_codes :: "endian \<Rightarrow> scode list \<Rightarrow> pyval list \<Rightarrow> error + bytes" where
  "pack_codes e [] [] = Inr []"
| "pack_codes e (c # cs) (v # vs) =
     (case pack_code e c v of
        Inl err \<Rightarrow> Inl err
      | Inr b \<Rightarrow> (case pack_codes e cs vs of Inl err \<Rightarrow> Inl err | Inr bs \<Rightarrow> Inr (b @ bs)))"
| "pack_codes e cs vs = Inl StructError"

definition struct_pack :: "Struct \<Rightarrow> pyval list \<Rightarrow> error + bytes" where
  "struct_pack st row = pack_codes (byte_order st) (codes st) row"

subsection \<open>The vertex table reader\<close>

text \<open>
  A vertex table is a Python dictionary from property names to \<open>float32\<close> arrays: an
  association list in insertion order, \<open>AList.update\<close> being the assignment
  \<open>arrays[name] = a\<close>.

  What NumPy does when it allocates depends on the machine. The record \<open>numpy_env\<close>
  holds the two things the program cannot see: \<open>can_allocate n\<close>, whether the memory for
  an array of \<open>n\<close> \<open>float32\<close> elements is there (when it is not, MemoryError), and
  \<open>junk\<close>, the contents of the memory that \<open>np.empty\<close> hands out without initialising
  it, for the array of each property name and each index. On every machine a negative
  length is refused, and so is a length of \<open>2 ^ 61\<close> or more, whose size in bytes does not
  fit the 64-bit index type.
\<close>

type_synonym table = "(string \<times> f32 list) list"

record numpy_env =
  can_allocate :: "nat \<Rightarrow> bool"
  junk :: "string \<Rightarrow> nat \<Rightarrow> f32"

definition np_alloc_error :: "numpy_env \<Rightarrow> int \<Rightarrow> error option" where
  "np_alloc_error env n =
     (if n < 0 then Some NegativeDimensions
      else if 2 ^ 61 \<le> n then Some ArrayTooBig
      else if \<not> can_allocate env (nat n) then Some MemoryError
      else None)"

definition np_empty :: "numpy_env \<Rightarrow> string \<Rightarrow> int \<Rightarrow> error + f32 list" where
  "np_empty env p_name n =
     (case np_alloc_error env n of
        Some e \<Rightarrow> Inl e
      | None \<Rightarrow> Inr (map (junk env p_name) [0..<nat n]))"

definition np_zeros :: "numpy_env \<Rightarrow> int \<Rightarrow> error + f32 list" where
  "np_zeros env n =
     (case np_alloc_error env n of
        Some e \<Rightarrow> Inl e
      | None \<Rightarrow> Inr (replicate (nat n) 0))"

fun alloc_arrays ::
  "numpy_env \<Rightarrow> int \<Rightarrow> (string \<times> string) list \<Rightarrow> table \<Rightarrow> error + table" where
  "alloc_arrays env n [] arrays = Inr arrays"
| "alloc_arrays env n ((p_type, p_name) # ps) arrays =
     (case np_empty env p_name n of
        Inl e \<Rightarrow> Inl e
      | Inr a \<Rightarrow> alloc_arrays env n ps (AList.update p_name a arrays))"

text \<open>
  The inner loop \<open>for (p_type, p_name), v in zip(props, values): arrays[p_name][i] = float(v)\<close>.
  The right-hand side is evaluated first; the store into the \<open>float32\<close> array narrows it.
\<close>

fun store_row :: "(string \<times> string) list \<Rightarrow> pyval list \<Rightarrow> nat \<Rightarrow> table \<Rightarrow> error + table" where
  "store_row ((p_type, p_name) # ps) (v # vs) i arrays =
     (case py_float v of
        Inl e \<Rightarrow> Inl e
      | Inr x \<Rightarrow>
          (case map_of arrays p_name of
             None \<Rightarrow> Inl (KeyError p_name)
           | Some col \<Rightarrow>
               if i < length col
               then store_row ps vs i (AList.update p_name (col[i := f64_to_f32 x]) arrays)
               else Inl IndexError))"
| "store_row ps vs i arrays = Inr arrays"

text \<open>
  The loop \<open>for i in range(header.vertex_count)\<close>: \<open>i\<close> is the index, \<open>k\<close> the number of
  iterations left, \<open>data\<close> the bytes of the file from the current position on.
\<close>

fun read_rows ::
  "Struct \<Rightarrow> (string \<times> string) list \<Rightarrow> int \<Rightarrow> nat \<Rightarrow> nat \<Rightarrow> bytes \<Rightarrow> table \<Rightarrow> error + table" where
  "read_rows st props vc i 0 data arrays = Inr arrays"
| "read_rows st props vc i (Suc k) data arrays =
     (let chunk = take (struct_size st) data
      in if length chunk \<noteq> struct_size st then Inl (BodyEOF i vc)
         else (case store_row props (struct_unpack st chunk) i arrays of
                 Inl e \<Rightarrow> Inl e
               | Inr arrays' \<Rightarrow>
                   read_rows st props vc (Suc i) k (drop (struct_size st) data) arrays'))"

definition read_vertex_table_binary :: "numpy_env \<Rightarrow> bytes \<Rightarrow> PlyHeader \<Rightarrow> error + table" where
  "read_vertex_table_binary env file header =
     (if format header \<noteq> ''binary_little_endian'' \<and> format header \<noteq> ''binary_big_endian''
      then Inl (UnsupportedFormat (format header))
      else
        (case endian_for_format (format header) of
           Inl e \<Rightarrow> Inl e
         | Inr en \<Rightarrow>
             (case struct_for_vertex (vertex_properties header) en of
                Inl e \<Rightarrow> Inl e
              | Inr st \<Rightarrow>
                  (case alloc_arrays env (vertex_count header) (vertex_properties header) [] of
                     Inl e \<Rightarrow> Inl e
                   | Inr arrays \<Rightarrow>
                       read_rows st (vertex_properties header) (vertex_count header) 0
                         (nat (vertex_count header)) (drop (data_start_offset header) file)
                         arrays))))"

subsection \<open>The vertex table writer\<close>

text \<open>
  The columns the writer is given are \<open>float32\<close> arrays, as every array the converter
  builds is; an element of a column is packed as the NumPy scalar it is.

  \<open>sep.join(lines)\<close>:
\<close>

fun join :: "string \<Rightarrow> string list \<Rightarrow> string" where
  "join sep [] = []"
| "join sep [x] = x"
| "join sep (x # y # ys) = x @ sep @ join sep (y # ys)"

definition writer_header_lines :: "string \<Rightarrow> (string \<times> string) list \<Rightarrow> string list" where
  "writer_header_lines count schema =
     [''ply'', ''format binary_little_endian 1.0'', ''element vertex '' @ count]
     @ map (\<lambda>(p_type, p_name). ''property '' @ p_type @ '' '' @ p_name) schema
     @ [''end_header'']"

definition writer_header :: "string \<Rightarrow> (string \<times> string) list \<Rightarrow> string" where
  "writer_header count schema = join [LF] (writer_header_lines count schema) @ [LF]"

fun sanity_check :: "int \<Rightarrow> (string \<times> string) list \<Rightarrow> table \<Rightarrow> error option" where
  "sanity_check n [] columns = None"
| "sanity_check n ((p_type, p_name) # ps) columns =
     (case map_of columns p_name of
        None \<Rightarrow> Some (MissingColumn p_name)
      | Some col \<Rightarrow>
          if int (length col) \<noteq> n then Some (RowCountMismatch p_name)
          else sanity_check n ps columns)"

text \<open>\<open>row = [columns[name][i] for _, name in schema]\<close>.\<close>

fun build_row :: "(string \<times> string) list \<Rightarrow> table \<Rightarrow> nat \<Rightarrow> error + pyval list" where
  "build_row [] columns i = Inr []"
| "build_row ((p_type, name) # ps) columns i =
     (case map_of columns name of
        None \<Rightarrow> Inl (KeyError name)
      | Some col \<Rightarrow>
          if i < length col
          then (case build_row ps columns i of
                  Inl e \<Rightarrow> Inl e
                | Inr vs \<Rightarrow> Inr (NpFloat32 (col ! i) # vs))
          else Inl IndexError)"

text \<open>
  The loop \<open>for i in range(vertex_count)\<close> of the writer; \<open>out\<close> is what has been written
  to the file so far, and it stays written when a row fails.
\<close>

fun write_rows ::
  "Struct \<Rightarrow> (string \<times> string) list \<Rightarrow> table \<Rightarrow> nat \<Rightarrow> nat \<Rightarrow> bytes \<Rightarrow> (error + unit) \<times> bytes" where
  "write_rows st schema columns i 0 out = (Inr (), out)"
| "write_rows st schema columns i (Suc k) out =
     (case build_row schema columns i of
        Inl e \<Rightarrow> (Inl e, out)
      | Inr row \<Rightarrow>
          (case struct_pack st row of
             Inl e \<Rightarrow> (Inl e, out)
           | Inr b \<Rightarrow> write_rows st schema columns (Suc i) k (out @ b)))"

text \<open>
  The file system is a map from paths to file contents. The header text is built first,
  the vertex count printed into it; then the struct, then the sanity check.
  \<open>path.open("wb")\<close> creates the file or truncates it, before anything is written.
\<close>

type_synonym filesystem = "string \<Rightarrow> bytes option"

definition write_ply_binary_vertex_only ::
  "filesystem \<Rightarrow> string \<Rightarrow> int \<Rightarrow> (string \<times> string) list \<Rightarrow> table \<Rightarrow> (error + unit) \<times> filesystem" where
  "write_ply_binary_vertex_only fs path vcount schema columns =
     (case format_int vcount of
        Inl e \<Rightarrow> (Inl e, fs)
      | Inr count \<Rightarrow>
          (let header = writer_header count schema
           in case struct_for_vertex schema Little of
                Inl e \<Rightarrow> (Inl e, fs)
              | Inr st \<Rightarrow>
                  (case sanity_check vcount schema columns of
                     Some e \<Rightarrow> (Inl e, fs)
                   | None \<Rightarrow>
                       (case encode_ascii header of
                          Inl e \<Rightarrow> (Inl e, fs(path \<mapsto> []))
                        | Inr hb \<Rightarrow>
                            (case write_rows st schema columns 0 (nat vcount) hb of
                               (r, content) \<Rightarrow> (r, fs(path \<mapsto> content)))))))"

subsection \<open>The converter\<close>

definition build_target_schema_from_train_header :: "PlyHeader \<Rightarrow> (string \<times> string) list" where
  "build_target_schema_from_train_header train_header = vertex_properties train_header"

text \<open>
  The loop that builds \<open>out_cols\<close>. \<open>astype(np.float32, copy=False)\<close> on a
  \<open>float32\<close> array returns the array itself.
\<close>

fun reconcile ::
  "numpy_env \<Rightarrow> table \<Rightarrow> (string \<times> string) list \<Rightarrow> int \<Rightarrow> table \<Rightarrow> error + table" where
  "reconcile env teaser_cols [] n out_cols = Inr out_cols"
| "reconcile env teaser_cols ((p_type, name) # ps) n out_cols =
     (case map_of teaser_cols name of
        Some col \<Rightarrow> reconcile env teaser_cols ps n (AList.update name col out_cols)
      | None \<Rightarrow>
          (case np_zeros env n of
             Inl e \<Rightarrow> Inl e
           | Inr z \<Rightarrow> reconcile env teaser_cols ps n (AList.update name z out_cols)))"

text \<open>
  The two loops that fill \<open>nx\<close>, \<open>ny\<close>, \<open>nz\<close> and \<open>f_rest_0\<close> to \<open>f_rest_44\<close> with zeros
  when they are in \<open>out_cols\<close> and not in \<open>teaser_cols\<close>.
\<close>

definition fill_zero :: "table \<Rightarrow> string \<Rightarrow> table \<Rightarrow> table" where
  "fill_zero teaser_cols name out_cols =
     (case map_of out_cols name of
        None \<Rightarrow> out_cols
      | Some col \<Rightarrow>
          if map_of teaser_cols name = None
          then AList.update name (map (\<lambda>_. 0) col) out_cols
          else out_cols)"

definition ensure_zero :: "table \<Rightarrow> table \<Rightarrow> table" where
  "ensure_zero teaser_cols out_cols =
     fold (fill_zero teaser_cols)
       ([''nx'', ''ny'', ''nz''] @ map (\<lambda>i. ''f_rest_'' @ str_nat i) [0..<45]) out_cols"

definition out_columns ::
  "numpy_env \<Rightarrow> table \<Rightarrow> (string \<times> string) list \<Rightarrow> int \<Rightarrow> error + table" where
  "out_columns env teaser_cols target_schema n =
     (case reconcile env teaser_cols target_schema n [] of
        Inl e \<Rightarrow> Inl e
      | Inr out_cols \<Rightarrow> Inr (ensure_zero teaser_cols out_cols))"

definition convert ::
  "numpy_env \<Rightarrow> filesystem \<Rightarrow> string \<Rightarrow> string \<Rightarrow> string \<Rightarrow> (error + unit) \<times> filesystem" where
  "convert env fs teaser_path train_path output_path =
     (case fs teaser_path of
        None \<Rightarrow> (Inl FileNotFoundError, fs)
      | Some teaser_file \<Rightarrow>
          (case parse_ply_header teaser_file of
             Inl e \<Rightarrow> (Inl e, fs)
           | Inr teaser_header \<Rightarrow>
               (case fs train_path of
                  None \<Rightarrow> (Inl FileNotFoundError, fs)
                | Some train_file \<Rightarrow>
                    (case parse_ply_header train_file of
                       Inl e \<Rightarrow> (Inl e, fs)
                     | Inr train_header \<Rightarrow>
                         (let target_schema = build_target_schema_from_train_header train_header
                          in case read_vertex_table_binary env teaser_file teaser_header of
                               Inl e \<Rightarrow> (Inl e, fs)
                             | Inr teaser_cols \<Rightarrow>
                                 (case out_columns env teaser_cols target_schema
                                         (vertex_count teaser_header) of
                                    Inl e \<Rightarrow> (Inl e, fs)
                                  | Inr out_cols \<Rightarrow>
                                      write_ply_binary_vertex_only fs output_path
                                        (vertex_count teaser_header) target_schema out_cols))))))"

subsection \<open>Headers that declare a list property\<close>

text \<open>
  What the specification calls a header that declares a list property inside the vertex
  element, read off the lines after the format line: before \<open>end_header\<close>, a line
  \<open>property list <count type> <item type> <name> ...\<close> while the last \<open>element\<close> line
  seen names \<open>vertex\<close>.
\<close>

fun list_in_vertex :: "bool \<Rightarrow> bytes list \<Rightarrow> bool" where
  "list_in_vertex in_vertex [] = False"
| "list_in_vertex in_vertex (bline # rest) =
     (let stripped = strip (rstrip_crlf bline); parts = split stripped
      in if stripped = ''end_header'' then False
         else if parts \<noteq> [] \<and> hd parts = ''element''
         then list_in_vertex (1 < length parts \<and> parts ! 1 = ''vertex'') rest
         else if in_vertex \<and> 5 \<le> length parts \<and> hd parts = ''property'' \<and> parts ! 1 = ''list''
         then True
         else list_in_vertex in_vertex rest)"

definition declares_vertex_list :: "bytes \<Rightarrow> bool" where
  "declares_vertex_list file = list_in_vertex False (drop 2 (readlines file))"

subsection \<open>Errors of the writer before it opens the destination\<close>


subsection \<open>The records of the body and what the reader stores for them\<close>

text \<open>
  The \<open>i\<close>-th record of the data that starts at \<open>data_start_offset\<close>, and the \<open>float32\<close>
  values that the reader stores for its fields: each field unpacked with its code,
  converted by \<open>float\<close> (exactly, for the integers a field can hold) and narrowed.
\<close>

definition record_bytes :: "Struct \<Rightarrow> bytes \<Rightarrow> nat \<Rightarrow> bytes" where
  "record_bytes st data i = take (struct_size st) (drop (i * struct_size st) data)"

definition decode_cell :: "endian \<Rightarrow> scode \<Rightarrow> bytes \<Rightarrow> f32" where
  "decode_cell e c bs =
     f64_to_f32 (case unpack_code e c bs of
                   PyInt i \<Rightarrow> int_to_f64 i
                 | PyFloat x \<Rightarrow> x
                 | NpFloat32 y \<Rightarrow> f32_to_f64 y)"

fun decode_fields :: "endian \<Rightarrow> scode list \<Rightarrow> bytes \<Rightarrow> f32 list" where
  "decode_fields e [] bs = []"
| "decode_fields e (c # cs) bs =
     decode_cell e c (take (code_size c) bs) # decode_fields e cs (drop (code_size c) bs)"

definition record_cells :: "Struct \<Rightarrow> bytes \<Rightarrow> nat \<Rightarrow> f32 list" where
  "record_cells st data i = decode_fields (byte_order st) (codes st) (record_bytes st data i)"

subsection \<open>The keys of a dictionary\<close>

text \<open>
  The keys of a Python dictionary, in order, after assignments to the given keys in
  order, starting from the empty dictionary: a key is appended the first time it is
  assigned.
\<close>

definition insert_key :: "string \<Rightarrow> string list \<Rightarrow> string list" where
  "insert_key k ks = (if k \<in> set ks then ks else ks @ [k])"

definition dict_keys :: "string list \<Rightarrow> string list" where
  "dict_keys names = fold insert_key names []"

text \<open>The offset of the \<open>j\<close>-th field in a record.\<close>

definition field_offset :: "scode list \<Rightarrow> nat \<Rightarrow> nat" where
  "field_offset cs j = sum_list (map code_size (take j cs))"

subsection \<open>A machine for the examples\<close>


section \<open>Properties\<close>

subsection \<open>Header parsing\<close>

lemma decode_ascii_Inr: "decode_ascii b = Inr s \<Longrightarrow> s = b"
  by (simp add: decode_ascii_def split: if_splits)

lemma parse_ply_header_Inr:
  assumes "parse_ply_header file = Inr h"
  obtains first fmt_line ls2 n props hl ds where
    "readlines file = first # fmt_line # ls2"
    "decode_ascii first = Inr first" "decode_ascii fmt_line = Inr fmt_line"
    "strip (rstrip_crlf first) = ''ply''"
    "length (split (strip fmt_line)) = 3" "split (strip fmt_line) ! 0 = ''format''"
    "header_loop None [] False [rstrip_crlf first, rstrip_crlf fmt_line]
       (length first + length fmt_line) ls2 = Inr (Some n, props, hl, ds)"
    "h = \<lparr>format = split (strip fmt_line) ! 1, version = split (strip fmt_line) ! 2,
          vertex_count = n, vertex_properties = props, header_lines = hl,
          data_start_offset = ds\<rparr>"
proof -
  from assms obtain first ls1 where r1: "readlines file = first # ls1"
    by (cases "readlines file") (auto simp: parse_ply_header_def)
  from assms r1 obtain s1 where d1: "decode_ascii first = Inr s1"
    by (cases "decode_ascii first") (auto simp: parse_ply_header_def)
  then have s1: "s1 = first" by (rule decode_ascii_Inr)
  from assms r1 d1 have ply: "strip (rstrip_crlf first) = ''ply''"
    by (simp add: parse_ply_header_def s1 split: if_splits)
  from assms r1 d1 ply obtain fmt_line ls2 where r2: "ls1 = fmt_line # ls2"
    by (cases ls1) (auto simp: parse_ply_header_def s1)
  from assms r1 d1 ply r2 obtain s2 where d2: "decode_ascii fmt_line = Inr s2"
    by (cases "decode_ascii fmt_line") (auto simp: parse_ply_header_def s1)
  then have s2: "s2 = fmt_line" by (rule decode_ascii_Inr)
  from assms r1 d1 ply r2 d2 have f: "length (split (strip fmt_line)) = 3"
      "split (strip fmt_line) ! 0 = ''format''"
    by (simp_all add: parse_ply_header_def s1 s2 Let_def split: if_splits)
  from assms r1 d1 ply r2 d2 f obtain res where
    l: "header_loop None [] False [rstrip_crlf first, rstrip_crlf fmt_line]
       (length first + length fmt_line) ls2 = Inr res"
    by (cases "header_loop None [] False [rstrip_crlf first, rstrip_crlf fmt_line]
       (length first + length fmt_line) ls2") (auto simp: parse_ply_header_def s1 s2 Let_def)
  obtain vc props hl ds where res: "res = (vc, props, hl, ds)" by (cases res)
  from assms r1 d1 ply r2 d2 f l res obtain n where n: "vc = Some n"
    by (cases vc) (auto simp: parse_ply_header_def s1 s2 Let_def)
  from assms r1 d1 ply r2 d2 f l res n have
    "h = \<lparr>format = split (strip fmt_line) ! 1, version = split (strip fmt_line) ! 2,
          vertex_count = n, vertex_properties = props, header_lines = hl,
          data_start_offset = ds\<rparr>"
    by (simp add: parse_ply_header_def s1 s2 Let_def)
  with that r1 r2 d1 d2 s1 s2 ply f l res n show thesis by blast
qed

lemma header_loop_list:
  "list_in_vertex in_vertex ls \<Longrightarrow> \<exists>e. header_loop vc props in_vertex hl pos ls = Inl e"
proof (induction ls arbitrary: vc props in_vertex hl pos)
  case Nil
  then show ?case by simp
next
  case (Cons bline rest)
  let ?st = "strip (rstrip_crlf bline)"
  let ?p = "split ?st"
  show ?case
  proof (cases "decode_ascii bline")
    case (Inl e)
    then show ?thesis by simp
  next
    case (Inr s)
    then have s: "s = bline" by (rule decode_ascii_Inr)
    from Cons.prems have ne: "?st \<noteq> ''end_header''"
      by (auto simp: Let_def split: if_splits)
    consider (blank) "?p = []"
      | (element) "?p \<noteq> []" "hd ?p = ''element''"
      | (property) "?p \<noteq> []" "hd ?p = ''property''"
      | (other) "?p \<noteq> []" "hd ?p \<noteq> ''element''" "hd ?p \<noteq> ''property''"
      by blast
    then show ?thesis
    proof cases
      case blank
      with Cons.prems ne have "list_in_vertex in_vertex rest" by (simp add: Let_def)
      from Cons.IH [OF this] show ?thesis by (simp add: Inr s Let_def ne blank)
    next
      case element
      with Cons.prems ne
      have l: "list_in_vertex (1 < length ?p \<and> ?p ! 1 = ''vertex'') rest" by (simp add: Let_def)
      show ?thesis
      proof (cases "length ?p \<noteq> 3")
        case True
        then show ?thesis by (simp add: Inr s Let_def ne element)
      next
        case False
        then have len: "length ?p = 3" by simp
        show ?thesis
        proof (cases "py_int (?p ! 2)")
          case (Inl e)
          then show ?thesis by (simp add: Inr s Let_def ne element len)
        next
          case i: (Inr elem_count)
          show ?thesis
          proof (cases "?p ! 1 = ''vertex''")
            case True
            with l len have "list_in_vertex True rest" by simp
            from Cons.IH [OF this] True show ?thesis
              by (simp add: Inr s Let_def ne element len i)
          next
            case False
            with l len have "list_in_vertex False rest" by simp
            from Cons.IH [OF this] False show ?thesis
              by (simp add: Inr s Let_def ne element len i)
          qed
        qed
      qed
    next
      case property
      then have nel: "hd ?p \<noteq> ''element''" by simp
      show ?thesis
      proof (cases in_vertex)
        case True
        show ?thesis
        proof (cases "length ?p = 3")
          case len: True
          with Cons.prems ne property nel have "list_in_vertex in_vertex rest"
            by (simp add: Let_def)
          from Cons.IH [OF this] show ?thesis
            by (simp add: Inr s Let_def ne property len True)
        next
          case False
          then show ?thesis by (simp add: Inr s Let_def ne property True)
        qed
      next
        case False
        with Cons.prems ne property nel have "list_in_vertex in_vertex rest"
          by (simp add: Let_def)
        from Cons.IH [OF this] show ?thesis
          by (simp add: Inr s Let_def ne property False)
      qed
    next
      case other
      with Cons.prems ne have "list_in_vertex in_vertex rest" by (simp add: Let_def)
      from Cons.IH [OF this] show ?thesis by (simp add: Inr s Let_def ne other)
    qed
  qed
qed


text \<open>
  Claim C7. A header that declares a list property inside the vertex element is rejected
  when the header is parsed: \<open>parse_ply_header\<close> raises, and so the converter raises on
  its first step, before the vertex table of any file is read and without touching the
  file system. A list property is never dropped to let the parse succeed.
\<close>

theorem list_property_rejected:
  assumes "declares_vertex_list file"
  shows "(\<exists>e. parse_ply_header file = Inl e)
       \<and> (fs teaser_path = Some file \<longrightarrow>
            (\<exists>e. convert env fs teaser_path train_path output_path = (Inl e, fs)))"
proof -
  obtain first fmt_line ls2 where r: "readlines file = first # fmt_line # ls2"
    using assms by (cases "readlines file"; cases "tl (readlines file)")
      (auto simp: declares_vertex_list_def)
  with assms have "list_in_vertex False ls2" by (simp add: declares_vertex_list_def)
  then have hl: "\<And>hl pos. \<exists>e. header_loop None [] False hl pos ls2 = Inl e"
    by (rule header_loop_list)
  have p: "\<exists>e. parse_ply_header file = Inl e"
  proof (cases "decode_ascii first")
    case (Inl e)
    then show ?thesis by (simp add: parse_ply_header_def r)
  next
    case d1: (Inr s1)
    show ?thesis
    proof (cases "strip (rstrip_crlf s1) \<noteq> ''ply''")
      case True
      then show ?thesis by (simp add: parse_ply_header_def r d1)
    next
      case ply: False
      show ?thesis
      proof (cases "decode_ascii fmt_line")
        case (Inl e)
        then show ?thesis using ply by (simp add: parse_ply_header_def r d1)
      next
        case d2: (Inr s2)
        show ?thesis
        proof (cases "length (split (strip s2)) \<noteq> 3 \<or> split (strip s2) ! 0 \<noteq> ''format''")
          case True
          then show ?thesis using ply by (simp add: parse_ply_header_def r d1 d2 Let_def)
        next
          case False
          from hl obtain e where
            "header_loop None [] False [rstrip_crlf s1, rstrip_crlf s2]
               (length first + length fmt_line) ls2 = Inl e" by blast
          with False ply show ?thesis by (simp add: parse_ply_header_def r d1 d2 Let_def)
        qed
      qed
    qed
  qed
  then show ?thesis by (auto simp: convert_def)
qed

text \<open>The theorem at the header of the specification's example.\<close>

theorem list_property_rejected_witness:
  "declares_vertex_list
     ''ply\<newline>format binary_little_endian 1.0\<newline>element vertex 1\<newline>property float x\<newline>property list uchar int vertex_indices\<newline>end_header\<newline>''
   \<and> (\<exists>e. parse_ply_header
     ''ply\<newline>format binary_little_endian 1.0\<newline>element vertex 1\<newline>property float x\<newline>property list uchar int vertex_indices\<newline>end_header\<newline>''
       = Inl e)"
proof -
  have h: "declares_vertex_list
     ''ply\<newline>format binary_little_endian 1.0\<newline>element vertex 1\<newline>property float x\<newline>property list uchar int vertex_indices\<newline>end_header\<newline>''"
    by code_simp
  from list_property_rejected [OF h] h show ?thesis by blast
qed

subsection \<open>Column reconciliation\<close>






lemma np_zeros_cases:
  "np_zeros env n = (case np_alloc_error env n of Some e \<Rightarrow> Inl e | None \<Rightarrow> Inr (replicate (nat n) 0))"
  by (simp add: np_zeros_def)






subsection \<open>The writer fails before it writes\<close>


lemma py_float_error: "py_float v = Inl err \<Longrightarrow> err = OverflowError"
  by (auto simp: py_float_def Let_def split: pyval.splits if_splits)












subsection \<open>Bit lengths and integers in bytes\<close>

lemma bitlen_less: "n < 2 ^ bitlen n"
proof (induction n rule: bitlen.induct)
  case (1 n)
  show ?case
  proof (cases "n = 0")
    case True
    then show ?thesis by (simp add: bitlen.simps)
  next
    case False
    with 1 have "n div 2 < 2 ^ bitlen (n div 2)" by simp
    then have "n < 2 * 2 ^ bitlen (n div 2)" by linarith
    with False show ?thesis by (subst bitlen.simps) simp
  qed
qed

lemma bitlen_ge: "0 < n \<Longrightarrow> 2 ^ (bitlen n - 1) \<le> n"
proof (induction n rule: bitlen.induct)
  case (1 n)
  show ?case
  proof (cases "n div 2 = 0")
    case True
    with 1 have "n = 1" by linarith
    then show ?thesis by (simp add: bitlen.simps)
  next
    case False
    with 1 have "2 ^ (bitlen (n div 2) - 1) \<le> n div 2" by simp
    moreover from False have "0 < bitlen (n div 2)" by (subst bitlen.simps) simp
    ultimately have "2 ^ bitlen (n div 2) \<le> 2 * (n div 2)"
      by (cases "bitlen (n div 2)") simp_all
    then have "2 ^ bitlen (n div 2) \<le> n" by linarith
    with 1 show ?thesis by (subst bitlen.simps) simp
  qed
qed

lemma bitlen_le: "n < 2 ^ k \<Longrightarrow> bitlen n \<le> k"
proof (rule ccontr)
  assume n: "n < 2 ^ k" and "\<not> bitlen n \<le> k"
  then have k: "k \<le> bitlen n - 1" and pos: "0 < bitlen n" by simp_all
  from pos have "0 < n" by (subst (asm) bitlen.simps) (simp split: if_splits)
  then have "2 ^ (bitlen n - 1) \<le> n" by (rule bitlen_ge)
  moreover from k have "(2::nat) ^ k \<le> 2 ^ (bitlen n - 1)" by (rule power_increasing) simp
  ultimately show False using n by linarith
qed

lemma bitlen_pos: "0 < n \<Longrightarrow> 0 < bitlen n"
  by (subst bitlen.simps) simp

lemma bitlen_eqI: "2 ^ k \<le> n \<Longrightarrow> n < 2 ^ Suc k \<Longrightarrow> bitlen n = Suc k"
proof -
  assume l: "2 ^ k \<le> n" and u: "n < 2 ^ Suc k"
  from u have "bitlen n \<le> Suc k" by (rule bitlen_le)
  moreover have "k < bitlen n"
  proof (rule ccontr)
    assume "\<not> k < bitlen n"
    then have "(2::nat) ^ bitlen n \<le> 2 ^ k" by (intro power_increasing) simp_all
    with bitlen_less [of n] l show False by linarith
  qed
  ultimately show ?thesis by simp
qed

lemma le_nat_less: "le_nat bs < 256 ^ length bs"
proof (induction bs)
  case Nil
  then show ?case by simp
next
  case (Cons b bs)
  have "(of_char b :: nat) < 256" by simp
  then have A: "of_char b + 256 * le_nat bs < 256 + 256 * le_nat bs"
    by (rule add_strict_right_mono)
  from Cons have "le_nat bs + 1 \<le> 256 ^ length bs" by simp
  then have "256 * (le_nat bs + 1) \<le> 256 * 256 ^ length bs" by (rule mult_le_mono2)
  then have B: "256 + 256 * le_nat bs \<le> 256 * 256 ^ length bs" by simp
  from A B have "of_char b + 256 * le_nat bs < 256 * 256 ^ length bs" by (rule less_le_trans)
  then show ?case by simp
qed

lemma bytes_nat_less: "bytes_nat e bs < 256 ^ length bs"
  using le_nat_less [of bs] le_nat_less [of "rev bs"]
  by (cases e) (simp_all add: bytes_nat_def)


subsection \<open>The values a field can hold\<close>

lemma round_ieee_small:
  assumes "M < 2 ^ 32"
  shows "round_ieee 52 11 M 0 < 2047 * 2 ^ 52"
proof (cases "M = 0")
  case True
  then show ?thesis by (simp add: round_ieee_def)
next
  case False
  then have pos: "0 < M" by simp
  define L where "L = bitlen M"
  have L1: "1 \<le> L" using bitlen_pos [OF pos] by (simp add: L_def)
  have L32: "L \<le> 32" using bitlen_le [OF assms] by (simp add: L_def)
  have M: "M < 2 ^ L" using bitlen_less [of M] by (simp add: L_def)
  have k: "M * 2 ^ (53 - L) < 2 ^ 53"
  proof -
    from M have "M * 2 ^ (53 - L) < 2 ^ L * 2 ^ (53 - L)" by simp
    also have "\<dots> = 2 ^ (L + (53 - L))" by (simp add: power_add)
    also have "\<dots> = 2 ^ 53" using L32 by simp
    finally show ?thesis .
  qed
  have e: "nat (int L - 1 - (52::int) + 52 + 1022 - 1022) = L - 1" using L1 by simp
  have r: "round_ieee 52 11 M 0 = min (nat (int L - 1 + 1022) * 2 ^ 52 + M * 2 ^ (53 - L)) (2047 * 2 ^ 52)"
  proof -
    have a: "nat (0 - (int L - 1 - 52)) = 53 - L" using L1 L32 by simp
    have b: "(2::int) - 2 ^ (11 - 1) = - 1022" by simp
    have c: "- 1022 \<le> int L - 1 + 0" using L1 by simp
    have d: "int L - 1 + 0 - 52 \<le> 0" using L32 by simp
    show ?thesis
      using False a c d
      by (simp add: round_ieee_def Let_def L_def [symmetric])
  qed
  have "nat (int L - 1 + 1022) \<le> 1053" using L32 by simp
  then have "nat (int L - 1 + 1022) * 2 ^ 52 \<le> 1053 * (2 ^ 52 :: nat)" by (rule mult_le_mono1)
  with k have "nat (int L - 1 + 1022) * 2 ^ 52 + M * 2 ^ (53 - L) < 2047 * 2 ^ 52" by simp
  with r show ?thesis by simp
qed

lemma to_signed_abs: "n < 2 ^ (8 * k) \<Longrightarrow> 0 < k \<Longrightarrow> nat \<bar>to_signed k n\<bar> \<le> 2 ^ (8 * k - 1)"
proof -
  assume n: "n < 2 ^ (8 * k)" and k: "0 < k"
  define P where "P = (2::nat) ^ (8 * k - 1)"
  have e: "(2::nat) ^ (8 * k) = 2 * P"
    using k by (cases "8 * k") (simp_all add: P_def)
  have ei: "(2::int) ^ (8 * k) = 2 * int P"
    using k by (cases "8 * k") (simp_all add: P_def)
  have t: "to_signed k n = (if n < P then int n else int n - 2 * int P)"
    by (simp add: to_signed_def ei P_def)
  from n e have "n < 2 * P" by simp
  then have "nat \<bar>to_signed k n\<bar> \<le> P" by (auto simp: t nat_le_iff)
  then show ?thesis by (simp add: P_def)
qed

lemma py_float_unpack:
  assumes "length bs \<le> code_size c"
  shows "py_float (unpack_code e c bs)
       = Inr (case unpack_code e c bs of
                PyInt i \<Rightarrow> int_to_f64 i
              | PyFloat x \<Rightarrow> x
              | NpFloat32 y \<Rightarrow> f32_to_f64 y)"
proof -
  have n: "bytes_nat e bs < 256 ^ code_size c"
  proof -
    have "bytes_nat e bs < 256 ^ length bs" by (rule bytes_nat_less)
    also have "\<dots> \<le> (256 :: nat) ^ code_size c" using assms by (intro power_increasing) simp_all
    finally show ?thesis .
  qed
  have i: "round_ieee 52 11 M 0 \<noteq> 2047 * 2 ^ 52" if "M < 2 ^ 32" for M
    using round_ieee_small [OF that] by simp
  show ?thesis
  proof (cases c)
    case Cb
    with n have "bytes_nat e bs < 2 ^ (8 * 1)" by simp
    from to_signed_abs [OF this] have "nat \<bar>to_signed 1 (bytes_nat e bs)\<bar> < 2 ^ 32" by simp
    from i [OF this] Cb show ?thesis by (simp add: unpack_code_def py_float_def)
  next
    case CB
    with n have "bytes_nat e bs < 2 ^ 32" by simp
    from i [OF this] CB show ?thesis by (simp add: unpack_code_def py_float_def)
  next
    case Ch
    with n have "bytes_nat e bs < 2 ^ (8 * 2)" by simp
    from to_signed_abs [OF this] have "nat \<bar>to_signed 2 (bytes_nat e bs)\<bar> < 2 ^ 32" by simp
    from i [OF this] Ch show ?thesis by (simp add: unpack_code_def py_float_def)
  next
    case CH
    with n have "bytes_nat e bs < 2 ^ 32" by simp
    from i [OF this] CH show ?thesis by (simp add: unpack_code_def py_float_def)
  next
    case Ci
    with n have "bytes_nat e bs < 2 ^ (8 * 4)" by simp
    from to_signed_abs [OF this] have "nat \<bar>to_signed 4 (bytes_nat e bs)\<bar> < 2 ^ 32" by simp
    from i [OF this] Ci show ?thesis by (simp add: unpack_code_def py_float_def)
  next
    case CI
    with n have "bytes_nat e bs < 2 ^ 32" by simp
    from i [OF this] CI show ?thesis by (simp add: unpack_code_def py_float_def)
  next
    case Cf
    then show ?thesis by (simp add: unpack_code_def py_float_def)
  next
    case Cd
    then show ?thesis by (simp add: unpack_code_def py_float_def)
  qed
qed

subsection \<open>One row of the reader\<close>

lemma update_keys_present:
  "k \<in> fst ` set al \<Longrightarrow> map fst (AList.update k v al) = map fst al"
  by (simp add: update_keys)

lemma length_unpack_codes: "length (unpack_codes e cs bs) = length cs"
  by (induction cs arbitrary: bs) simp_all

lemma length_decode_fields: "length (decode_fields e cs bs) = length cs"
  by (induction cs arbitrary: bs) simp_all

lemma store_row_ok:
  assumes "length cs = length props"
    and "\<forall>name \<in> snd ` set props. \<exists>col. map_of arrays name = Some col \<and> i < length col"
  shows "\<exists>arrays'. store_row props (unpack_codes e cs bs) i arrays = Inr arrays'
        \<and> map fst arrays' = map fst arrays
        \<and> (\<forall>name. map_of arrays' name =
              (case map_of (rev (zip (map snd props) (decode_fields e cs bs))) name of
                 None \<Rightarrow> map_of arrays name
               | Some c \<Rightarrow> map_option (\<lambda>col. col[i := c]) (map_of arrays name)))"
  using assms
proof (induction props arbitrary: cs bs arrays)
  case Nil
  then show ?case by simp
next
  case (Cons p ps)
  obtain t nm where p: "p = (t, nm)" by (cases p)
  from Cons.prems(1) obtain c cs' where cs: "cs = c # cs'" and len: "length cs' = length ps"
    by (cases cs) auto
  let ?b = "take (code_size c) bs"
  let ?bs' = "drop (code_size c) bs"
  let ?c0 = "decode_cell e c ?b"
  have pf: "py_float (unpack_code e c ?b)
       = Inr (case unpack_code e c ?b of
                PyInt i \<Rightarrow> int_to_f64 i
              | PyFloat x \<Rightarrow> x
              | NpFloat32 y \<Rightarrow> f32_to_f64 y)"
    by (rule py_float_unpack) simp
  from Cons.prems(2) p obtain col where col: "map_of arrays nm = Some col" and i: "i < length col"
    by auto
  let ?a1 = "AList.update nm (col[i := ?c0]) arrays"
  have step: "store_row (p # ps) (unpack_codes e cs bs) i arrays
            = store_row ps (unpack_codes e cs' ?bs') i ?a1"
    by (simp add: p cs pf col i decode_cell_def)
  have pre: "\<forall>name \<in> snd ` set ps. \<exists>col. map_of ?a1 name = Some col \<and> i < length col"
    using Cons.prems(2) i by (auto simp: update_conv')
  from Cons.IH [OF len pre, of ?bs']
  obtain arrays' where r: "store_row ps (unpack_codes e cs' ?bs') i ?a1 = Inr arrays'"
    and k: "map fst arrays' = map fst ?a1"
    and m: "\<forall>name. map_of arrays' name =
              (case map_of (rev (zip (map snd ps) (decode_fields e cs' ?bs'))) name of
                 None \<Rightarrow> map_of ?a1 name
               | Some c \<Rightarrow> map_option (\<lambda>col. col[i := c]) (map_of ?a1 name))"
    by blast
  have "nm \<in> fst ` set arrays" using col by (rule map_of_SomeD [THEN imageI, of _ _ _ fst, simplified])
  then have k': "map fst ?a1 = map fst arrays" by (rule update_keys_present)
  have m': "map_of arrays' name =
              (case map_of (rev (zip (map snd (p # ps)) (decode_fields e cs bs))) name of
                 None \<Rightarrow> map_of arrays name
               | Some c \<Rightarrow> map_option (\<lambda>col. col[i := c]) (map_of arrays name))" for name
    using m [rule_format, of name] col
    by (auto simp: p cs update_conv' map_add_def split: option.splits)
  from step r k k' m' show ?case by auto
qed

subsection \<open>The rows of the reader\<close>

lemma code_size_pos: "0 < code_size c"
  by (cases c) simp_all

lemma struct_size_pos: "codes st \<noteq> [] \<Longrightarrow> 0 < struct_size st"
  using code_size_pos by (cases "codes st") (auto simp: struct_size_def)

lemma record_bytes_0: "record_bytes st data 0 = take (struct_size st) data"
  by (simp add: record_bytes_def)

lemma record_bytes_drop:
  "record_bytes st (drop (struct_size st) data) j = record_bytes st data (Suc j)"
  by (simp add: record_bytes_def add.commute)

lemma record_cells_drop:
  "record_cells st (drop (struct_size st) data) j = record_cells st data (Suc j)"
  by (simp add: record_cells_def record_bytes_drop)

lemma map_of_rev_zip_Some:
  "length xs = length ys \<Longrightarrow> k \<in> set xs \<Longrightarrow> \<exists>v. map_of (rev (zip xs ys)) k = Some v"
proof -
  assume "length xs = length ys" and "k \<in> set xs"
  then have "k \<in> fst ` set (rev (zip xs ys))" by (simp add: map_fst_zip [symmetric] del: map_fst_zip) (metis map_fst_zip set_map)
  then show ?thesis by (meson map_of_eq_None_iff option.exhaust)
qed

lemma read_rows_eof:
  assumes "length (codes st) = length props" and "0 < struct_size st"
    and "\<forall>name \<in> snd ` set props. \<exists>col. map_of arrays name = Some col \<and> i + k \<le> length col"
    and "length data < k * struct_size st"
  shows "read_rows st props vc i k data arrays
       = Inl (BodyEOF (i + length data div struct_size st) vc)"
  using assms(3,4)
proof (induction k arbitrary: i data arrays)
  case 0
  then show ?case by simp
next
  case (Suc k)
  let ?s = "struct_size st"
  show ?case
  proof (cases "length data < ?s")
    case True
    then show ?thesis by (simp add: Let_def)
  next
    case False
    then have full: "length (take ?s data) = ?s" by simp
    have pre: "\<forall>name \<in> snd ` set props. \<exists>col. map_of arrays name = Some col \<and> i < length col"
      using Suc.prems(1) by fastforce
    from store_row_ok [OF assms(1) pre, of "byte_order st" "take ?s data"]
    obtain arrays1 where s1: "store_row props (struct_unpack st (take ?s data)) i arrays = Inr arrays1"
      and m1: "\<forall>name. map_of arrays1 name =
              (case map_of (rev (zip (map snd props)
                      (decode_fields (byte_order st) (codes st) (take ?s data)))) name of
                 None \<Rightarrow> map_of arrays name
               | Some c \<Rightarrow> map_option (\<lambda>col. col[i := c]) (map_of arrays name))"
      by (auto simp: struct_unpack_def)
    have pre1: "\<forall>name \<in> snd ` set props. \<exists>col. map_of arrays1 name = Some col \<and> Suc i + k \<le> length col"
    proof
      fix name assume "name \<in> snd ` set props"
      with Suc.prems(1) obtain col where "map_of arrays name = Some col" "i + Suc k \<le> length col"
        by blast
      then show "\<exists>col. map_of arrays1 name = Some col \<and> Suc i + k \<le> length col"
        by (simp add: m1 split: option.splits)
    qed
    have short: "length (drop ?s data) < k * ?s" using Suc.prems(2) False by simp
    from Suc.IH [OF pre1 short]
    have "read_rows st props vc (Suc i) k (drop ?s data) arrays1
        = Inl (BodyEOF (Suc i + length (drop ?s data) div ?s) vc)" .
    moreover have "Suc i + length (drop ?s data) div ?s = i + length data div ?s"
    proof -
      from False have "length data = (length data - ?s) + ?s" by simp
      then have "length data div ?s = (length data - ?s) div ?s + 1"
        using assms(2) by (metis Suc_eq_plus1 div_add_self2 less_numeral_extra(3))
      then show ?thesis by simp
    qed
    ultimately show ?thesis using full s1 by (simp add: Let_def)
  qed
qed

lemma read_rows_ok:
  assumes "length (codes st) = length props"
    and "\<forall>name \<in> snd ` set props. \<exists>col. map_of arrays name = Some col \<and> i + k \<le> length col"
    and "k * struct_size st \<le> length data"
  shows "\<exists>arrays'. read_rows st props vc i k data arrays = Inr arrays'
       \<and> map fst arrays' = map fst arrays
       \<and> (\<forall>name. name \<notin> snd ` set props \<longrightarrow> map_of arrays' name = map_of arrays name)
       \<and> (\<forall>name \<in> snd ` set props. \<exists>col col'.
             map_of arrays name = Some col \<and> map_of arrays' name = Some col'
             \<and> length col' = length col
             \<and> (\<forall>j < length col. col' ! j =
                  (if i \<le> j \<and> j < i + k
                   then the (map_of (rev (zip (map snd props) (record_cells st data (j - i)))) name)
                   else col ! j)))"
  using assms(2,3)
proof (induction k arbitrary: i data arrays)
  case 0
  then show ?case by fastforce
next
  case (Suc k)
  let ?s = "struct_size st"
  let ?names = "map snd props"
  from Suc.prems(2) have len: "?s \<le> length data" by simp
  then have full: "length (take ?s data) = ?s" by simp
  have pre: "\<forall>name \<in> snd ` set props. \<exists>col. map_of arrays name = Some col \<and> i < length col"
    using Suc.prems(1) by fastforce
  from store_row_ok [OF assms(1) pre, of "byte_order st" "take ?s data"]
  obtain arrays1 where s1: "store_row props (struct_unpack st (take ?s data)) i arrays = Inr arrays1"
    and k1: "map fst arrays1 = map fst arrays"
    and m1: "\<forall>name. map_of arrays1 name =
            (case map_of (rev (zip ?names (record_cells st data 0))) name of
               None \<Rightarrow> map_of arrays name
             | Some c \<Rightarrow> map_option (\<lambda>col. col[i := c]) (map_of arrays name))"
    by (auto simp: struct_unpack_def record_cells_def record_bytes_0)
  have lz: "length ?names = length (record_cells st data 0)"
    by (simp add: record_cells_def length_decode_fields assms(1))
  have c1: "\<exists>c col. map_of (rev (zip ?names (record_cells st data 0))) name = Some c
            \<and> map_of arrays name = Some col \<and> i + Suc k \<le> length col
            \<and> map_of arrays1 name = Some (col[i := c])"
    if "name \<in> snd ` set props" for name
  proof -
    from that have "name \<in> set ?names" by simp
    from map_of_rev_zip_Some [OF lz this]
    obtain c where c: "map_of (rev (zip ?names (record_cells st data 0))) name = Some c" by blast
    from that Suc.prems(1) obtain col where "map_of arrays name = Some col" "i + Suc k \<le> length col"
      by blast
    with c show ?thesis by (simp add: m1)
  qed
  have n1: "map_of arrays1 name = map_of arrays name" if "name \<notin> snd ` set props" for name
  proof -
    from that have "name \<notin> fst ` set (rev (zip ?names (record_cells st data 0)))"
      by (auto dest!: set_zip_leftD)
    then have "map_of (rev (zip ?names (record_cells st data 0))) name = None"
      by (simp add: map_of_eq_None_iff)
    then show ?thesis by (simp add: m1)
  qed
  have pre1: "\<forall>name \<in> snd ` set props. \<exists>col. map_of arrays1 name = Some col \<and> Suc i + k \<le> length col"
    using c1 by fastforce
  have rest: "k * ?s \<le> length (drop ?s data)" using Suc.prems(2) by simp
  from Suc.IH [OF pre1 rest]
  obtain arrays' where r: "read_rows st props vc (Suc i) k (drop ?s data) arrays1 = Inr arrays'"
    and k': "map fst arrays' = map fst arrays1"
    and n': "\<forall>name. name \<notin> snd ` set props \<longrightarrow> map_of arrays' name = map_of arrays1 name"
    and m': "\<forall>name \<in> snd ` set props. \<exists>col col'.
             map_of arrays1 name = Some col \<and> map_of arrays' name = Some col'
             \<and> length col' = length col
             \<and> (\<forall>j < length col. col' ! j =
                  (if Suc i \<le> j \<and> j < Suc i + k
                   then the (map_of (rev (zip ?names (record_cells st (drop ?s data) (j - Suc i)))) name)
                   else col ! j))"
    by blast
  have run: "read_rows st props vc i (Suc k) data arrays = Inr arrays'"
    using full s1 r by (simp add: Let_def)
  have cols: "\<exists>col col'.
             map_of arrays name = Some col \<and> map_of arrays' name = Some col'
             \<and> length col' = length col
             \<and> (\<forall>j < length col. col' ! j =
                  (if i \<le> j \<and> j < i + Suc k
                   then the (map_of (rev (zip ?names (record_cells st data (j - i)))) name)
                   else col ! j))"
    if nm: "name \<in> snd ` set props" for name
  proof -
    from c1 [OF nm] obtain c col where
      c: "map_of (rev (zip ?names (record_cells st data 0))) name = Some c"
      and col: "map_of arrays name = Some col" and il: "i + Suc k \<le> length col"
      and a1: "map_of arrays1 name = Some (col[i := c])" by blast
    from m' nm a1 obtain col' where col': "map_of arrays' name = Some col'"
      and l': "length col' = length col"
      and v': "\<forall>j < length col. col' ! j =
                  (if Suc i \<le> j \<and> j < Suc i + k
                   then the (map_of (rev (zip ?names (record_cells st (drop ?s data) (j - Suc i)))) name)
                   else col[i := c] ! j)"
      by fastforce
    have "col' ! j =
                  (if i \<le> j \<and> j < i + Suc k
                   then the (map_of (rev (zip ?names (record_cells st data (j - i)))) name)
                   else col ! j)" if j: "j < length col" for j
    proof -
      from v' j have e: "col' ! j =
                  (if Suc i \<le> j \<and> j < Suc i + k
                   then the (map_of (rev (zip ?names (record_cells st (drop ?s data) (j - Suc i)))) name)
                   else col[i := c] ! j)" by blast
      show ?thesis
      proof (cases "j = i")
        case True
        with e c j show ?thesis by simp
      next
        case False
        show ?thesis
        proof (cases "Suc i \<le> j \<and> j < Suc i + k")
          case True
          then have "Suc (j - Suc i) = j - i" by linarith
          moreover from True have "i \<le> j \<and> j < i + Suc k" by linarith
          ultimately show ?thesis using e True by (simp add: record_cells_drop)
        next
          case out: False
          from e have "col' ! j = col[i := c] ! j" by (simp only: if_not_P [OF out])
          with False have eq: "col' ! j = col ! j" by simp
          from out False have n: "\<not> (i \<le> j \<and> j < i + Suc k)" by linarith
          from eq show ?thesis by (simp only: if_not_P [OF n])
        qed
      qed
    qed
    with col col' l' show ?thesis by blast
  qed
  from run k' k1 n' n1 cols show ?case by auto
qed

subsection \<open>The cases of the reader\<close>

lemma struct_codes_length: "struct_codes props = Inr cs \<Longrightarrow> length cs = length props"
proof (induction props arbitrary: cs)
  case Nil
  then show ?case by simp
next
  case (Cons p ps)
  obtain t name where p: "p = (t, name)" by (cases p)
  from Cons show ?case by (auto simp: p split: option.splits sum.splits)
qed

lemma struct_for_vertex_Inr:
  "struct_for_vertex props en = Inr st
   \<longleftrightarrow> (\<exists>cs. struct_codes props = Inr cs \<and> st = \<lparr>byte_order = en, codes = cs\<rparr>)"
  by (auto simp: struct_for_vertex_def split: sum.splits)

lemma struct_for_vertex_length:
  "struct_for_vertex props en = Inr st \<Longrightarrow> length (codes st) = length props"
  by (auto simp: struct_for_vertex_Inr dest: struct_codes_length)

lemma struct_for_vertex_endian:
  "struct_for_vertex props en = Inr st \<Longrightarrow>
   struct_for_vertex props en' = Inr (st\<lparr>byte_order := en'\<rparr>)"
  by (auto simp: struct_for_vertex_Inr)

lemma keys_update: "map fst (AList.update k v al) = insert_key k (map fst al)"
  by (simp add: update_keys insert_key_def)

lemma alloc_arrays_error:
  assumes "props \<noteq> []" and "np_alloc_error env n = Some e"
  shows "alloc_arrays env n props acc = Inl e"
proof -
  from assms(1) obtain t name ps where "props = (t, name) # ps"
    by (cases props) auto
  with assms(2) show ?thesis by (simp add: np_empty_def)
qed

lemma alloc_arrays_ok:
  assumes "props = [] \<or> np_alloc_error env n = None"
  shows "\<exists>arrays. alloc_arrays env n props acc = Inr arrays
       \<and> map fst arrays = fold insert_key (map snd props) (map fst acc)
       \<and> (\<forall>name. map_of arrays name =
            (if name \<in> snd ` set props then Some (map (junk env name) [0..<nat n])
             else map_of acc name))"
  using assms
proof (induction props arbitrary: acc)
  case Nil
  then show ?case by simp
next
  case (Cons p ps)
  obtain t nm where p: "p = (t, nm)" by (cases p)
  from Cons.prems have ok: "np_alloc_error env n = None" by simp
  then have e: "np_empty env nm n = Inr (map (junk env nm) [0..<nat n])"
    by (simp add: np_empty_def)
  let ?a1 = "AList.update nm (map (junk env nm) [0..<nat n]) acc"
  from ok have "ps = [] \<or> np_alloc_error env n = None" by simp
  from Cons.IH [OF this, of ?a1]
  obtain arrays where r: "alloc_arrays env n ps ?a1 = Inr arrays"
    and k: "map fst arrays = fold insert_key (map snd ps) (map fst ?a1)"
    and m: "\<forall>name. map_of arrays name =
            (if name \<in> snd ` set ps then Some (map (junk env name) [0..<nat n])
             else map_of ?a1 name)" by blast
  from r e have "alloc_arrays env n (p # ps) acc = Inr arrays" by (simp add: p)
  moreover from k have "map fst arrays = fold insert_key (map snd (p # ps)) (map fst acc)"
    by (simp add: p keys_update)
  moreover from m have "\<forall>name. map_of arrays name =
            (if name \<in> snd ` set (p # ps) then Some (map (junk env name) [0..<nat n])
             else map_of acc name)"
    by (auto simp: p update_conv')
  ultimately show ?case by blast
qed

lemma distinct_insert_key: "distinct ks \<Longrightarrow> distinct (insert_key k ks)"
  by (simp add: insert_key_def)

lemma distinct_fold_insert_key: "distinct ks \<Longrightarrow> distinct (fold insert_key names ks)"
  by (induction names arbitrary: ks) (simp_all add: distinct_insert_key)

lemma distinct_dict_keys: "distinct (dict_keys names)"
  by (simp add: dict_keys_def distinct_fold_insert_key)

lemma set_fold_insert_key: "set (fold insert_key names ks) = set names \<union> set ks"
  by (induction names arbitrary: ks) (auto simp: insert_key_def)

lemma set_dict_keys: "set (dict_keys names) = set names"
  by (simp add: dict_keys_def set_fold_insert_key)

lemma alist_rebuild:
  "distinct (map fst xs) \<Longrightarrow> map (\<lambda>k. (k, the (map_of xs k))) (map fst xs) = xs"
proof (induction xs)
  case Nil
  then show ?case by simp
next
  case (Cons x xs)
  obtain k v where x: "x = (k, v)" by (cases x)
  from Cons.prems x have nk: "k \<notin> fst ` set xs" and d: "distinct (map fst xs)" by auto
  from Cons.IH [OF d] have ih: "map (\<lambda>k. (k, the (map_of xs k))) (map fst xs) = xs" .
  have "map (\<lambda>k'. (k', the (map_of ((k, v) # xs) k'))) (map fst xs)
      = map (\<lambda>k'. (k', the (map_of xs k'))) (map fst xs)"
    using nk by (intro map_cong) auto
  with ih show ?case by (simp add: x)
qed

lemma alist_eqI:
  assumes "map fst xs = map fst ys" and "distinct (map fst xs)" and "map_of xs = map_of ys"
  shows "xs = ys"
proof -
  from assms(1,2) have "distinct (map fst ys)" by simp
  from alist_rebuild [OF assms(2)] alist_rebuild [OF this] assms(1,3) show ?thesis by simp
qed

lemma endian_for_format_Inr:
  "endian_for_format fmt = Inr en \<longleftrightarrow>
     (fmt = ''binary_little_endian'' \<and> en = Little) \<or> (fmt = ''binary_big_endian'' \<and> en = Big)"
  by (auto simp: endian_for_format_def)

lemma read_unfold:
  assumes "endian_for_format (format h) = Inr en"
    and "struct_for_vertex (vertex_properties h) en = Inr st"
  shows "read_vertex_table_binary env file h
       = (case alloc_arrays env (vertex_count h) (vertex_properties h) [] of
            Inl e \<Rightarrow> Inl e
          | Inr arrays \<Rightarrow>
              read_rows st (vertex_properties h) (vertex_count h) 0 (nat (vertex_count h))
                (drop (data_start_offset h) file) arrays)"
  using assms by (auto simp: read_vertex_table_binary_def endian_for_format_def split: if_splits)

lemma read_format_error:
  assumes "format h \<noteq> ''binary_little_endian''" and "format h \<noteq> ''binary_big_endian''"
  shows "read_vertex_table_binary env file h = Inl (UnsupportedFormat (format h))"
  using assms by (simp add: read_vertex_table_binary_def)

lemma read_type_error:
  assumes "endian_for_format (format h) = Inr en"
    and "struct_for_vertex (vertex_properties h) en = Inl e"
  shows "read_vertex_table_binary env file h = Inl e"
  using assms by (auto simp: read_vertex_table_binary_def endian_for_format_def split: if_splits)

lemma read_alloc_error:
  assumes "endian_for_format (format h) = Inr en"
    and "struct_for_vertex (vertex_properties h) en = Inr st"
    and "vertex_properties h \<noteq> []" and "np_alloc_error env (vertex_count h) = Some e"
  shows "read_vertex_table_binary env file h = Inl e"
  using alloc_arrays_error [OF assms(3,4)] by (simp add: read_unfold [OF assms(1,2)])

lemma read_eof:
  assumes en: "endian_for_format (format h) = Inr en"
    and st: "struct_for_vertex (vertex_properties h) en = Inr st"
    and ok: "np_alloc_error env (vertex_count h) = None"
    and short: "length (drop (data_start_offset h) file) < nat (vertex_count h) * struct_size st"
  shows "read_vertex_table_binary env file h
       = Inl (BodyEOF (length (drop (data_start_offset h) file) div struct_size st) (vertex_count h))"
proof -
  let ?props = "vertex_properties h"
  let ?n = "nat (vertex_count h)"
  from short have pos: "0 < struct_size st" by (cases "struct_size st") simp_all
  have len: "length (codes st) = length ?props" using st by (rule struct_for_vertex_length)
  from ok have "?props = [] \<or> np_alloc_error env (vertex_count h) = None" by simp
  from alloc_arrays_ok [OF this, of "[]"]
  obtain arrays where a: "alloc_arrays env (vertex_count h) ?props [] = Inr arrays"
    and m: "\<forall>name. map_of arrays name =
            (if name \<in> snd ` set ?props then Some (map (junk env name) [0..<?n])
             else map_of [] name)" by blast
  have pre: "\<forall>name \<in> snd ` set ?props. \<exists>col. map_of arrays name = Some col \<and> 0 + ?n \<le> length col"
    using m by simp
  from read_rows_eof [OF len pos pre short, of "vertex_count h"] a
  show ?thesis by (simp add: read_unfold [OF en st])
qed

lemma read_success:
  assumes en: "endian_for_format (format h) = Inr en"
    and st: "struct_for_vertex (vertex_properties h) en = Inr st"
    and ok: "vertex_properties h = [] \<or> np_alloc_error env (vertex_count h) = None"
    and long: "nat (vertex_count h) * struct_size st \<le> length (drop (data_start_offset h) file)"
  shows "\<exists>tbl. read_vertex_table_binary env file h = Inr tbl
       \<and> map fst tbl = dict_keys (map snd (vertex_properties h))
       \<and> (\<forall>name \<in> snd ` set (vertex_properties h).
            map_of tbl name =
              Some (map (\<lambda>i. the (map_of (rev (zip (map snd (vertex_properties h))
                                   (record_cells st (drop (data_start_offset h) file) i))) name))
                      [0..<nat (vertex_count h)]))"
proof -
  let ?props = "vertex_properties h"
  let ?n = "nat (vertex_count h)"
  let ?body = "drop (data_start_offset h) file"
  have len: "length (codes st) = length ?props" using st by (rule struct_for_vertex_length)
  from alloc_arrays_ok [OF ok, of "[]"]
  obtain arrays where all: "alloc_arrays env (vertex_count h) ?props [] = Inr arrays
    \<and> map fst arrays = fold insert_key (map snd ?props) (map fst ([] :: table))
    \<and> (\<forall>name. map_of arrays name =
            (if name \<in> snd ` set ?props then Some (map (junk env name) [0..<?n])
             else map_of [] name))" ..
  note a = conjunct1 [OF all] and k = conjunct1 [OF conjunct2 [OF all]]
    and m = conjunct2 [OF conjunct2 [OF all]]
  have pre: "\<forall>name \<in> snd ` set ?props. \<exists>col. map_of arrays name = Some col \<and> 0 + ?n \<le> length col"
    using m by simp
  from read_rows_ok [OF len pre long, of "vertex_count h"]
  obtain tbl where r: "read_rows st ?props (vertex_count h) 0 ?n ?body arrays = Inr tbl"
    and k': "map fst tbl = map fst arrays"
    and c: "\<forall>name \<in> snd ` set ?props. \<exists>col col'.
             map_of arrays name = Some col \<and> map_of tbl name = Some col'
             \<and> length col' = length col
             \<and> (\<forall>j < length col. col' ! j =
                  (if 0 \<le> j \<and> j < 0 + ?n
                   then the (map_of (rev (zip (map snd ?props) (record_cells st ?body (j - 0)))) name)
                   else col ! j))" by blast
  have "map_of tbl name =
              Some (map (\<lambda>i. the (map_of (rev (zip (map snd ?props) (record_cells st ?body i))) name))
                      [0..<?n])" if nm: "name \<in> snd ` set ?props" for name
  proof -
    from c nm obtain col col' where col: "map_of arrays name = Some col"
      and col': "map_of tbl name = Some col'" and l: "length col' = length col"
      and v: "\<forall>j < length col. col' ! j =
                  (if 0 \<le> j \<and> j < 0 + ?n
                   then the (map_of (rev (zip (map snd ?props) (record_cells st ?body (j - 0)))) name)
                   else col ! j)" by blast
    from m nm col have lc: "length col = ?n" by auto
    have "col' = map (\<lambda>i. the (map_of (rev (zip (map snd ?props) (record_cells st ?body i))) name))
                      [0..<?n]"
    proof (rule nth_equalityI)
      show "length col' = length (map (\<lambda>i. the (map_of (rev (zip (map snd ?props)
                 (record_cells st ?body i))) name)) [0..<?n])"
        using l lc by simp
    next
      fix j assume "j < length col'"
      with l lc have j: "j < ?n" by simp
      with v lc have "col' ! j = the (map_of (rev (zip (map snd ?props) (record_cells st ?body j))) name)"
        by simp
      with j show "col' ! j = map (\<lambda>i. the (map_of (rev (zip (map snd ?props)
                 (record_cells st ?body i))) name)) [0..<?n] ! j"
        by simp
    qed
    with col' show ?thesis by simp
  qed
  moreover from k k' have "map fst tbl = dict_keys (map snd ?props)" by (simp add: dict_keys_def)
  moreover from a r have "read_vertex_table_binary env file h = Inr tbl"
    by (simp add: read_unfold [OF en st])
  ultimately show ?thesis by blast
qed

end
